theory Spec2Isabelle
  imports Complex_Main "HOL-Library.Word" "HOL-Library.Char_ord" "HOL-Library.List_Lexorder"
    "HOL-Library.AList" "HOL-Library.Multiset"
begin

unbundle bit_operations_syntax

section \<open>Data model of the solver\<close>

text \<open>
  Node ids are strings (the applications generate ids such as \<open>n1\<close>, \<open>n2\<close>).
  JavaScript numbers are modelled as exact rationals: rounding, infinities and NaN of
  the IEEE doubles are outside this development. A node keeps its id and its weight;
  the label is never read by the solver.
\<close>

record node =
  nodeId :: string
  nodeWeight :: rat

text \<open>
  A link matrix is a plain object whose keys are the strings \<open>from|to\<close>. It is
  modelled by the list of its entries in enumeration order; the keys of an object are
  pairwise distinct, and keys that contain a bar are never array indices, so they
  are enumerated in insertion order.
\<close>

type_synonym linkMatrix = "(string \<times> rat) list"

record groupDetail =
  nodeIds :: "string list"
  nodeWeightSum :: rat
  combinedWeight :: rat

record solution =
  groups :: "string list list"
  freeNodes :: "string list"
  totalWeight :: rat
  groupDetails :: "groupDetail list"

text \<open>
  The messages of \<open>validate\<close> and of the fixed-group checks are template strings;
  the model keeps which message it is and the values printed in it.
\<close>

datatype message =
    NoNodes
  | MinAboveMax rat rat
  | NodeTooHeavy string rat rat
  | FixedDuplicate
  | FixedTooHeavy rat

text \<open>
  The object returned by \<open>computeGroups\<close>. The early returns build
  \<open>{ solutions: [], errors }\<close> with no \<open>optimal\<close> property, so reading it gives
  \<open>undefined\<close>: the field is an option and \<open>None\<close> stands for the absent property.
\<close>

record result =
  solutions :: "solution list"
  optimal :: "bool option"
  errors :: "message list"

record options =
  allowFreeNodes :: bool
  symmetricLinks :: bool
  balanceGroupWeightsFactor :: rat
  bonusPerGroup :: rat
  fixedGroups :: "string list list"

definition defaultOptions :: options where
  "defaultOptions = \<lparr>allowFreeNodes = False, symmetricLinks = True,
     balanceGroupWeightsFactor = 0, bonusPerGroup = 0, fixedGroups = []\<rparr>"

text \<open>Run-time errors raised by the JavaScript engine.\<close>

datatype error = TypeError | ReferenceError

section \<open>Validation\<close>

definition validate :: "node list \<Rightarrow> linkMatrix \<Rightarrow> rat \<Rightarrow> rat \<Rightarrow> message list" where
  "validate nodes linkMatrix minCombined maxCombined =
     (if nodes = [] then [NoNodes] else []) @
     (if minCombined > maxCombined then [MinAboveMax minCombined maxCombined] else []) @
     map (\<lambda>n. NodeTooHeavy (nodeId n) (nodeWeight n) maxCombined)
       (filter (\<lambda>n. nodeWeight n > maxCombined) nodes)"

section \<open>Helpers\<close>

text \<open>
  \<open>nodesById\<close> is the object built by \<open>for (const n of nodes) nodesById[n.id] = n\<close>:
  a later node with the same id replaces an earlier one. Every id that the solver
  looks up is an id of the node list (the groups are built from \<open>ids\<close>, and the fixed
  groups are filtered by \<open>idSet\<close>), so the lookup finds a node; \<open>weightOf\<close> reads its
  weight.
\<close>

definition nodesByIdOf :: "node list \<Rightarrow> (string \<rightharpoonup> node)" where
  "nodesByIdOf nodes = fold (\<lambda>n m. m(nodeId n \<mapsto> n)) nodes Map.empty"

definition weightOf :: "(string \<rightharpoonup> node) \<Rightarrow> string \<Rightarrow> rat" where
  "weightOf nodesById i = (case nodesById i of Some n \<Rightarrow> nodeWeight n | None \<Rightarrow> 0)"

definition groupNodeWeightSum :: "string list \<Rightarrow> (string \<rightharpoonup> node) \<Rightarrow> rat" where
  "groupNodeWeightSum grp nodesById = fold (\<lambda>i s. s + weightOf nodesById i) grp 0"

definition linkKey :: "string \<Rightarrow> string \<Rightarrow> string" where
  "linkKey a b = a @ ''|'' @ b"

text \<open>\<open>linkMatrix[key] || 0\<close>: an absent entry and a zero entry both read as 0.\<close>

definition linkAt :: "linkMatrix \<Rightarrow> string \<Rightarrow> rat" where
  "linkAt linkMatrix k = (case map_of linkMatrix k of Some w \<Rightarrow> w | None \<Rightarrow> 0)"

definition getPairLinkWeight :: "linkMatrix \<Rightarrow> string \<Rightarrow> string \<Rightarrow> bool \<Rightarrow> rat" where
  "getPairLinkWeight linkMatrix a b symLinks =
     (let ab = linkAt linkMatrix (linkKey a b);
          ba = linkAt linkMatrix (linkKey b a)
      in if symLinks then (if ab \<noteq> 0 then ab else ba) else ab + ba)"

fun groupCombinedWeight :: "string list \<Rightarrow> linkMatrix \<Rightarrow> bool \<Rightarrow> rat" where
  "groupCombinedWeight [] linkMatrix symLinks = 0"
| "groupCombinedWeight (x # xs) linkMatrix symLinks =
     sum_list (map (\<lambda>y. getPairLinkWeight linkMatrix x y symLinks) xs)
       + groupCombinedWeight xs linkMatrix symLinks"

definition getLinkWeight :: "linkMatrix \<Rightarrow> string \<Rightarrow> string \<Rightarrow> bool \<Rightarrow> rat" where
  "getLinkWeight linkMatrix a b symLinks = getPairLinkWeight linkMatrix a b symLinks"

definition nodeHasAnyLink :: "string \<Rightarrow> string list \<Rightarrow> linkMatrix \<Rightarrow> bool \<Rightarrow> bool" where
  "nodeHasAnyLink i allIds linkMatrix symLinks =
     list_ex (\<lambda>other. other \<noteq> i \<and> getLinkWeight linkMatrix i other symLinks \<noteq> 0) allIds"

definition solutionTotalWeight :: "string list list \<Rightarrow> linkMatrix \<Rightarrow> bool \<Rightarrow> rat" where
  "solutionTotalWeight gs linkMatrix symLinks =
     sum_list (map (\<lambda>g. groupCombinedWeight g linkMatrix symLinks) gs)"

definition buildGroupDetails ::
  "string list list \<Rightarrow> linkMatrix \<Rightarrow> (string \<rightharpoonup> node) \<Rightarrow> bool \<Rightarrow> groupDetail list" where
  "buildGroupDetails gs linkMatrix nodesById symLinks =
     map (\<lambda>g. \<lparr>nodeIds = g, nodeWeightSum = groupNodeWeightSum g nodesById,
               combinedWeight = groupCombinedWeight g linkMatrix symLinks\<rparr>) gs"

fun join :: "string \<Rightarrow> string list \<Rightarrow> string" where
  "join sep [] = []"
| "join sep [x] = x"
| "join sep (x # y # ys) = x @ sep @ join sep (y # ys)"

text \<open>
  \<open>solutionKey\<close>: the default \<open>sort()\<close> of an array of strings orders them by their
  code units, which is the lexicographic order of the character lists.
\<close>

definition solutionKey :: "string list list \<Rightarrow> string list \<Rightarrow> string" where
  "solutionKey gs free =
     (let groupPart = join ''|'' (sort (map (\<lambda>g. join '','' (sort g)) gs));
          freePart = join '','' (sort free)
      in if freePart \<noteq> [] then groupPart @ ''||free:'' @ freePart else groupPart)"

definition solutionHasDuplicateNodes :: "string list list \<Rightarrow> string list \<Rightarrow> nat \<Rightarrow> bool" where
  "solutionHasDuplicateNodes gs free totalNodeCount =
     (let allIds = concat gs @ free
      in if length allIds \<noteq> totalNodeCount then True
         else card (set allIds) \<noteq> totalNodeCount)"

definition variance :: "rat list \<Rightarrow> rat" where
  "variance values =
     (if values = [] then 0
      else let mean = sum_list values / of_nat (length values)
           in sum_list (map (\<lambda>x. (x - mean)\<^sup>2) values) / of_nat (length values))"

section \<open>The solution archive\<close>

text \<open>
  The values that the nested functions of \<open>computeGroups\<close> and the helpers it calls
  receive unchanged on every call: the node table, the link matrix, the two bounds,
  the options and the number of nodes.
\<close>

record env =
  envNodes :: "string \<rightharpoonup> node"
  envLinks :: linkMatrix
  envMin :: rat
  envMax :: rat
  envOpts :: options
  envCount :: nat

definition solutionScore :: "options \<Rightarrow> solution \<Rightarrow> rat" where
  "solutionScore opts sol =
     (let score = totalWeight sol + bonusPerGroup opts * of_nat (length (groups sol))
      in if balanceGroupWeightsFactor opts > 0 \<and> groupDetails sol \<noteq> []
         then score - balanceGroupWeightsFactor opts * variance (map combinedWeight (groupDetails sol))
         else score)"

text \<open>
  \<open>solutions.sort((a, b) => solutionScore(b) - solutionScore(a))\<close>: the comparator is
  consistent and \<open>Array.prototype.sort\<close> is stable, so the result is the stable sort by
  descending score.
\<close>

definition sortByScore :: "options \<Rightarrow> solution list \<Rightarrow> solution list" where
  "sortByScore opts sols = sort_key (\<lambda>s. - solutionScore opts s) sols"

text \<open>
  The state that \<open>addSolution\<close> closes over: the set \<open>seen\<close> of keys and the array
  \<open>solutions\<close>.
\<close>

type_synonym archive = "string set \<times> solution list"

definition addSolution :: "env \<Rightarrow> string list list \<Rightarrow> string list \<Rightarrow> archive \<Rightarrow> archive" where
  "addSolution e gs free ar =
     (if solutionHasDuplicateNodes gs free (envCount e) then ar
      else let key = solutionKey gs free in
        if key \<in> fst ar then ar
        else let details = buildGroupDetails gs (envLinks e) (envNodes e) (symmetricLinks (envOpts e));
                 total = sum_list (map combinedWeight details);
                 sol = \<lparr>groups = gs, freeNodes = free, totalWeight = total, groupDetails = details\<rparr>
             in (insert key (fst ar), take 10 (sortByScore (envOpts e) (snd ar @ [sol]))))"

section \<open>Solution pruning\<close>

definition isWasteful :: "linkMatrix \<Rightarrow> bool \<Rightarrow> solution \<Rightarrow> bool" where
  "isWasteful lm symLinks sol =
     list_ex (\<lambda>gd. if length (nodeIds gd) \<le> 1 then False
                   else list_ex (\<lambda>i. list_all (\<lambda>other. other = i \<or> getLinkWeight lm i other symLinks = 0)
                                   (nodeIds gd)) (nodeIds gd))
       (groupDetails sol)"

definition pruneWastefulSolutions :: "solution list \<Rightarrow> linkMatrix \<Rightarrow> bool \<Rightarrow> solution list" where
  "pruneWastefulSolutions sols lm symLinks =
     (if sols = [] then sols
      else if list_ex (\<lambda>s. \<not> isWasteful lm symLinks s) sols
           then filter (\<lambda>s. \<not> isWasteful lm symLinks s) sols
           else sols)"

section \<open>Exhaustive search\<close>

text \<open>
  \<open>recurse(pos)\<close> reads \<open>assignment[0..pos-1]\<close>, the choices made on the way down,
  and overwrites \<open>assignment[pos]\<close>; the model passes that prefix as the list \<open>asg\<close>
  and the ids still to place as \<open>todo\<close>. An assignment is \<open>-1\<close> (free) or a group
  index. \<open>usedGroupsOf\<close> is the \<open>Set\<close> of group indices in insertion order.
\<close>

definition usedGroupsOf :: "int list \<Rightarrow> int list" where
  "usedGroupsOf asg = fold (\<lambda>a used. if a \<ge> 0 \<and> a \<notin> set used then used @ [a] else used) asg []"

definition membersOf :: "string list \<Rightarrow> int list \<Rightarrow> int \<Rightarrow> string list" where
  "membersOf ids asg g = map fst (filter (\<lambda>p. snd p = g) (zip ids asg))"

text \<open>
  At a complete assignment \<open>groupMap\<close> has the group indices as keys, and
  \<open>Object.values\<close> lists integer keys in ascending order.
\<close>

definition leafGroups :: "string list \<Rightarrow> int list \<Rightarrow> string list list" where
  "leafGroups ids asg = map (membersOf ids asg) (sort (remdups (filter (\<lambda>a. a \<noteq> - 1) asg)))"

definition inBounds :: "env \<Rightarrow> string list \<Rightarrow> bool" where
  "inBounds e g = (\<not> (groupNodeWeightSum g (envNodes e) < envMin e
                      \<or> groupNodeWeightSum g (envNodes e) > envMax e))"

definition leaf :: "env \<Rightarrow> string list \<Rightarrow> int list \<Rightarrow> archive \<Rightarrow> archive" where
  "leaf e ids asg ar =
     (let gs = leafGroups ids asg; free = membersOf ids asg (- 1)
      in if list_all (inBounds e) gs then addSolution e gs free ar else ar)"

fun recurse :: "env \<Rightarrow> string list \<Rightarrow> int list \<Rightarrow> string list \<Rightarrow> archive \<Rightarrow> archive" where
  "recurse e ids asg [] ar = leaf e ids asg ar"
| "recurse e ids asg (x # todo) ar =
     (let ar1 = (if allowFreeNodes (envOpts e) then recurse e ids (asg @ [- 1]) todo ar else ar);
          usedGroups = usedGroupsOf asg;
          ar2 = fold (\<lambda>g a. if groupNodeWeightSum (membersOf ids (asg @ [g]) g) (envNodes e) \<le> envMax e
                            then recurse e ids (asg @ [g]) todo a else a) usedGroups ar1;
          nextNew = (if usedGroups \<noteq> [] then Max (set usedGroups) + 1 else 0)
      in if nextNew < int (length ids) then recurse e ids (asg @ [nextNew]) todo ar2 else ar2)"

definition exhaustiveSearch :: "env \<Rightarrow> string list \<Rightarrow> archive \<Rightarrow> archive" where
  "exhaustiveSearch e ids ar = recurse e ids [] ids ar"

section \<open>The seeded generator and the shuffle\<close>

text \<open>
  \<open>mulberry32(seed)\<close> keeps \<open>t\<close>; every operation on it is a 32-bit one
  (\<open>Math.imul\<close>, \<open>^\<close>, \<open>|\<close>, \<open>>>>\<close>), so \<open>t\<close> is a 32-bit word. A call returns the new
  \<open>t\<close> and the unsigned word \<open>(t ^ (t >>> 14)) >>> 0\<close>, which the source divides by
  \<open>2^32\<close>.
\<close>

definition mulberry32 :: "nat \<Rightarrow> 32 word" where
  "mulberry32 seed = of_nat seed + 0x6d2b79f5"

definition rng :: "32 word \<Rightarrow> 32 word \<times> 32 word" where
  "rng t0 =
     (let t1 = (t0 XOR drop_bit 15 t0) * (t0 OR 1);
          t2 = t1 XOR (t1 + (t1 XOR drop_bit 7 t1) * (t1 OR 61))
      in (t2, t2 XOR drop_bit 14 t2))"

text \<open>
  \<open>Math.floor(rng() * (i + 1))\<close> with \<open>rng() = u / 2^32\<close>: the product is exact in a
  double for every array shorter than \<open>2^21\<close>, so the index is
  \<open>u * (i + 1) div 2^32\<close>.
\<close>

fun shuffleLoop :: "nat \<Rightarrow> 32 word \<Rightarrow> 'a list \<Rightarrow> 'a list" where
  "shuffleLoop 0 t arr = arr"
| "shuffleLoop (Suc k) t arr =
     (let (t', u) = rng t;
          i = Suc k;
          j = nat ((uint u * int (i + 1)) div 2 ^ 32)
      in shuffleLoop k t' (arr[i := arr ! j, j := arr ! i]))"

definition shuffleWithSeed :: "'a list \<Rightarrow> nat \<Rightarrow> 'a list" where
  "shuffleWithSeed arr seed = shuffleLoop (length arr - 1) (mulberry32 seed) arr"

section \<open>Greedy build\<close>

record edge =
  ea :: string
  eb :: string
  ew :: rat

fun edgesOf :: "string list \<Rightarrow> linkMatrix \<Rightarrow> bool \<Rightarrow> edge list" where
  "edgesOf [] lm symLinks = []"
| "edgesOf (x # xs) lm symLinks =
     map (\<lambda>y. \<lparr>ea = x, eb = y, ew = getLinkWeight lm x y symLinks\<rparr>)
       (filter (\<lambda>y. getLinkWeight lm x y symLinks \<noteq> 0) xs)
     @ edgesOf xs lm symLinks"

text \<open>
  \<open>edges.sort(...)\<close> compares two edges by weight, descending, and answers a tie with
  \<open>rng() - 0.5\<close>. On ties the comparator is not consistent, so the order among edges of
  equal weight is whatever the engine's sorting algorithm makes of the coin flips.
  The parameter \<open>tie\<close> stands for that choice: it proposes an order for the edges of a
  restart, and the model keeps it as far as it is a rearrangement of the edges and
  sorts it stably by descending weight. Edges of different weights are thus ordered by
  weight whatever \<open>tie\<close> is.
\<close>

type_synonym tieOrder = "nat \<Rightarrow> edge list \<Rightarrow> edge list"

definition sortEdges :: "tieOrder \<Rightarrow> nat \<Rightarrow> edge list \<Rightarrow> edge list" where
  "sortEdges tie seed edges =
     sort_key (\<lambda>x. - ew x) (if mset (tie seed edges) = mset edges then tie seed edges else edges)"

text \<open>
  The inner loop \<open>for (const g of groups)\<close> of both builders: the first group that
  passes the test \<open>P\<close> and still fits \<open>maxCombined\<close> with \<open>x\<close> receives \<open>x\<close>;
  \<open>None\<close> when no group does.
\<close>

fun pushFirstFit :: "env \<Rightarrow> (string list \<Rightarrow> bool) \<Rightarrow> string \<Rightarrow> string list list \<Rightarrow> string list list option" where
  "pushFirstFit e P x [] = None"
| "pushFirstFit e P x (g # gs) =
     (if P g \<and> groupNodeWeightSum g (envNodes e) + weightOf (envNodes e) x \<le> envMax e
      then Some ((g @ [x]) # gs)
      else map_option ((#) g) (pushFirstFit e P x gs))"

text \<open>The state of a builder: \<open>groups\<close>, the set \<open>assigned\<close> and \<open>freeNodes\<close>.\<close>

type_synonym build = "string list list \<times> string set \<times> string list"

definition edgeStep :: "env \<Rightarrow> edge \<Rightarrow> build \<Rightarrow> build" where
  "edgeStep e ed st =
     (case st of (gs, assigned, free) \<Rightarrow>
       let a = ea ed; b = eb ed in
       if a \<in> assigned \<and> b \<in> assigned then st
       else if a \<notin> assigned \<and> b \<notin> assigned
               \<and> weightOf (envNodes e) a + weightOf (envNodes e) b \<le> envMax e
            then (gs @ [[a, b]], insert b (insert a assigned), free)
       else let inGroup = (if a \<in> assigned then a else b);
                outside = (if a \<in> assigned then b else a)
            in if outside \<in> assigned then st
               else (case pushFirstFit e (\<lambda>g. inGroup \<in> set g) outside gs of
                       Some gs' \<Rightarrow> (gs', insert outside assigned, free)
                     | None \<Rightarrow> st))"

definition placeStep :: "env \<Rightarrow> string list \<Rightarrow> string \<Rightarrow> build \<Rightarrow> build" where
  "placeStep e allIds i st =
     (case st of (gs, assigned, free) \<Rightarrow>
       if i \<in> assigned then st
       else if allowFreeNodes (envOpts e)
               \<and> \<not> nodeHasAnyLink i allIds (envLinks e) (symmetricLinks (envOpts e))
            then (gs, assigned, free @ [i])
       else (case pushFirstFit e (\<lambda>g. True) i gs of
               Some gs' \<Rightarrow> (gs', insert i assigned, free)
             | None \<Rightarrow>
                 if allowFreeNodes (envOpts e) then (gs, assigned, free @ [i])
                 else (gs @ [[i]], insert i assigned, free)))"

section \<open>Repair: merging groups below the minimum\<close>

definition removeAt :: "nat \<Rightarrow> 'a list \<Rightarrow> 'a list" where
  "removeAt i xs = take i xs @ drop (Suc i) xs"

text \<open>The inner loop over \<open>j\<close>: the first other group that fits together with group \<open>i\<close>.\<close>

definition mergeTarget :: "env \<Rightarrow> string list list \<Rightarrow> nat \<Rightarrow> nat option" where
  "mergeTarget e merged i =
     find (\<lambda>j. j \<noteq> i \<and> groupNodeWeightSum (merged ! i @ merged ! j) (envNodes e) \<le> envMax e)
       [0..<length merged]"

text \<open>
  One run of the \<open>for\<close> loop over \<open>i\<close> inside \<open>while (changed)\<close>. The loop leaves at
  the first group it merges or frees (\<open>if (changed) break\<close>); \<open>None\<close> is a run that
  changes nothing. The argument \<open>is\<close> lists the indices still to visit.
\<close>

fun mergeScan :: "env \<Rightarrow> string list list \<Rightarrow> string list \<Rightarrow> nat list \<Rightarrow> (string list list \<times> string list) option" where
  "mergeScan e merged free [] = None"
| "mergeScan e merged free (i # is) =
     (if groupNodeWeightSum (merged ! i) (envNodes e) \<ge> envMin e then mergeScan e merged free is
      else (case mergeTarget e merged i of
              Some j \<Rightarrow> Some (removeAt j (merged[i := merged ! i @ merged ! j]), free)
            | None \<Rightarrow>
                if allowFreeNodes (envOpts e) then Some (removeAt i merged, free @ merged ! i)
                else mergeScan e merged free is))"

function mergeLoop :: "env \<Rightarrow> string list list \<times> string list \<Rightarrow> string list list \<times> string list" where
  "mergeLoop e st =
     (case mergeScan e (fst st) (snd st) [0..<length (fst st)] of
        None \<Rightarrow> st
      | Some st' \<Rightarrow> mergeLoop e st')"
  by pat_completeness auto
termination
proof (relation "measure (\<lambda>(e, st). length (fst st))")
  show "wf (measure (\<lambda>(e, st). length (fst (st :: string list list \<times> string list))))"
    by simp
next
  fix e :: env and st st' :: "string list list \<times> string list"
  assume scan: "mergeScan e (fst st) (snd st) [0..<length (fst st)] = Some st'"
  have shrink: "mergeScan e m f is = Some r \<Longrightarrow> set is \<subseteq> {0..<length m} \<Longrightarrow> length (fst r) < length m"
    for m f "is" r
  proof (induction "is")
    case Nil
    then show ?case by simp
  next
    case (Cons i "is")
    then show ?case
      by (auto simp: removeAt_def mergeTarget_def find_Some_iff split: if_splits option.splits)
  qed
  from shrink[OF scan] show "((e, st'), (e, st)) \<in> measure (\<lambda>(e, st). length (fst st))"
    by simp
qed

declare mergeLoop.simps [simp del]

definition mergeSmallGroups :: "env \<Rightarrow> string list list \<Rightarrow> string list \<Rightarrow> (string list list \<times> string list) option" where
  "mergeSmallGroups e gs free =
     (let st = mergeLoop e (gs, free)
      in if list_all (inBounds e) (fst st) then Some st else None)"

definition greedyBuild :: "env \<Rightarrow> tieOrder \<Rightarrow> string list \<Rightarrow> nat \<Rightarrow> (string list list \<times> string list) option" where
  "greedyBuild e tie ids seed =
     (let shuffled = shuffleWithSeed ids seed;
          edges = sortEdges tie seed (edgesOf ids (envLinks e) (symmetricLinks (envOpts e)));
          st1 = fold (edgeStep e) edges ([], {}, []);
          st2 = fold (placeStep e ids) shuffled st1;
          gs = fst st2; free = snd (snd st2)
      in if list_ex (\<lambda>g. groupNodeWeightSum g (envNodes e) < envMin e) gs
         then mergeSmallGroups e gs free
         else Some (gs, free))"

section \<open>Greedy build and repair with fixed groups\<close>

text \<open>Insertion order of a \<open>Set\<close> built from an array: first occurrences.\<close>

definition uniq :: "'a list \<Rightarrow> 'a list" where
  "uniq xs = fold (\<lambda>x acc. if x \<in> set acc then acc else acc @ [x]) xs []"

definition edgeStepFixed :: "env \<Rightarrow> string set \<Rightarrow> edge \<Rightarrow> build \<Rightarrow> build" where
  "edgeStepFixed e freeSet ed st =
     (case st of (gs, assigned, free) \<Rightarrow>
       let a = ea ed; b = eb ed in
       if a \<in> assigned \<and> b \<in> assigned then st
       else if a \<in> assigned \<or> b \<in> assigned then
         (let inGroup = (if a \<in> assigned then a else b);
              outside = (if a \<in> assigned then b else a)
          in case pushFirstFit e (\<lambda>g. inGroup \<in> set g) outside gs of
               Some gs' \<Rightarrow> (gs', insert outside assigned, free)
             | None \<Rightarrow> st)
       else if a \<in> freeSet \<and> b \<in> freeSet
               \<and> weightOf (envNodes e) a + weightOf (envNodes e) b \<le> envMax e
            then (gs @ [[a, b]], insert b (insert a assigned), free)
       else st)"

fun mergeScanFixed :: "env \<Rightarrow> string set \<Rightarrow> string list list \<Rightarrow> string list \<Rightarrow> nat list \<Rightarrow> (string list list \<times> string list) option" where
  "mergeScanFixed e fixedGroupIds merged free [] = None"
| "mergeScanFixed e fixedGroupIds merged free (i # is) =
     (if groupNodeWeightSum (merged ! i) (envNodes e) \<ge> envMin e
      then mergeScanFixed e fixedGroupIds merged free is
      else (case mergeTarget e merged i of
              Some j \<Rightarrow> Some (removeAt (max i j) (merged[min i j := merged ! i @ merged ! j]), free)
            | None \<Rightarrow>
                if allowFreeNodes (envOpts e) \<and> \<not> list_ex (\<lambda>x. x \<in> fixedGroupIds) (merged ! i)
                then Some (removeAt i merged, free @ merged ! i)
                else mergeScanFixed e fixedGroupIds merged free is))"

function mergeLoopFixed :: "env \<Rightarrow> string set \<Rightarrow> string list list \<times> string list \<Rightarrow> string list list \<times> string list" where
  "mergeLoopFixed e fixedGroupIds st =
     (case mergeScanFixed e fixedGroupIds (fst st) (snd st) [0..<length (fst st)] of
        None \<Rightarrow> st
      | Some st' \<Rightarrow> mergeLoopFixed e fixedGroupIds st')"
  by pat_completeness auto
termination
proof (relation "measure (\<lambda>(e, F, st). length (fst st))")
  show "wf (measure (\<lambda>(e, F, st). length (fst (st :: string list list \<times> string list))))"
    by simp
next
  fix e :: env and F :: "string set" and st st' :: "string list list \<times> string list"
  assume scan: "mergeScanFixed e F (fst st) (snd st) [0..<length (fst st)] = Some st'"
  have shrink: "mergeScanFixed e F m f is = Some r \<Longrightarrow> set is \<subseteq> {0..<length m} \<Longrightarrow> length (fst r) < length m"
    for m f "is" r
  proof (induction "is")
    case Nil
    then show ?case by simp
  next
    case (Cons i "is")
    then show ?case
      by (auto simp: removeAt_def mergeTarget_def find_Some_iff split: if_splits option.splits)
  qed
  from shrink[OF scan] show "((e, F, st'), (e, F, st)) \<in> measure (\<lambda>(e, F, st). length (fst st))"
    by simp
qed

declare mergeLoopFixed.simps [simp del]

definition mergeSmallGroupsWithFixed ::
  "env \<Rightarrow> string list list \<Rightarrow> string list \<Rightarrow> string list list \<Rightarrow> (string list list \<times> string list) option" where
  "mergeSmallGroupsWithFixed e gs free fixedGroupsParam =
     (let st = mergeLoopFixed e (set (concat fixedGroupsParam)) (gs, free)
      in if list_all (inBounds e) (fst st) then Some st else None)"

definition greedyBuildWithFixed ::
  "env \<Rightarrow> tieOrder \<Rightarrow> string list \<Rightarrow> string list list \<Rightarrow> nat \<Rightarrow> (string list list \<times> string list) option" where
  "greedyBuildWithFixed e tie freeIds fixed seed =
     (let assigned = uniq (concat fixed);
          allIds = uniq (freeIds @ assigned);
          edges = sortEdges tie seed (edgesOf allIds (envLinks e) (symmetricLinks (envOpts e)));
          st1 = fold (edgeStepFixed e (set freeIds)) edges (fixed, set assigned, []);
          shuffledFree = shuffleWithSeed freeIds (seed + 1000);
          st2 = fold (placeStep e allIds) shuffledFree st1;
          gs = fst st2; free = snd (snd st2)
      in if list_ex (\<lambda>g. groupNodeWeightSum g (envNodes e) < envMin e) gs
         then mergeSmallGroupsWithFixed e gs free fixed
         else Some (gs, free))"

section \<open>Local search\<close>

text \<open>
  The variables that the loops of \<open>localSearch\<close> assign: \<open>best\<close>, \<open>bestFree\<close>,
  \<open>bestTotal\<close> and \<open>improved\<close>.
\<close>

record lsState =
  best :: "string list list"
  bestFree :: "string list"
  bestTotal :: rat
  improved :: bool

text \<open>
  The last argument of \<open>localSearch\<close> is iterated with \<open>for (const fg of
  fixedGroupsParam)\<close>. The call at the end of a restart without fixed groups passes the
  number \<open>0\<close>, the call with fixed groups passes the array of groups; a number is not
  iterable.
\<close>

datatype fixedArg = NumberArg rat | GroupsArg "string list list"

text \<open>
  \<open>nodeToFixedGroup\<close> is filled group after group, so a node of several groups maps
  to the last of them.
\<close>

definition nodeToFixedGroup :: "string list list \<Rightarrow> string \<Rightarrow> string list option" where
  "nodeToFixedGroup fgs x = find (\<lambda>fg. x \<in> set fg) (rev fgs)"

definition accept :: "lsState \<Rightarrow> string list list \<Rightarrow> string list \<Rightarrow> rat \<Rightarrow> lsState" where
  "accept st candidate free newTotal =
     \<lparr>best = candidate, bestFree = free, bestTotal = newTotal, improved = True\<rparr>"

text \<open>
  The body of the loop over \<open>gj\<close> of the Relocate move. \<open>best\<close> may have been replaced
  by an earlier round of this loop, so \<open>best[gi]\<close> can be \<open>undefined\<close>, and calling
  \<open>filter\<close> on it raises a \<open>TypeError\<close>.
\<close>

definition relocateTry :: "env \<Rightarrow> nat \<Rightarrow> string list \<Rightarrow> nat \<Rightarrow> lsState \<Rightarrow> error + lsState" where
  "relocateTry e gi nodesToMove gj st =
     (if gi = gj then Inr st
      else if gi \<ge> length (best st) then Inl TypeError
      else
        let srcAfter = filter (\<lambda>x. x \<notin> set nodesToMove) (best st ! gi);
            dstAfter = best st ! gj @ nodesToMove;
            lm = envLinks e; sym = symmetricLinks (envOpts e)
        in if srcAfter \<noteq> [] then
             (if groupNodeWeightSum srcAfter (envNodes e) < envMin e
                 \<or> groupNodeWeightSum dstAfter (envNodes e) > envMax e then Inr st
              else let candidate = (best st)[gi := srcAfter, gj := dstAfter];
                       total = solutionTotalWeight candidate lm sym
                   in if total > bestTotal st then Inr (accept st candidate (bestFree st) total)
                      else Inr st)
           else
             (let adjustedGj = (if gj > gi then gj - 1 else gj);
                  candidate = (removeAt gi (best st))[adjustedGj := dstAfter]
              in if groupNodeWeightSum dstAfter (envNodes e) > envMax e then Inr st
                 else if \<not> list_all (inBounds e) candidate then Inr st
                 else let total = solutionTotalWeight candidate lm sym
                      in if total > bestTotal st then Inr (accept st candidate (bestFree st) total)
                         else Inr st))"

function relocateLoop :: "env \<Rightarrow> nat \<Rightarrow> string list \<Rightarrow> nat \<Rightarrow> lsState \<Rightarrow> error + lsState" where
  "relocateLoop e gi nodesToMove gj st =
     (if gj < length (best st) then
        (case relocateTry e gi nodesToMove gj st of
           Inl err \<Rightarrow> Inl err
         | Inr st' \<Rightarrow> relocateLoop e gi nodesToMove (Suc gj) st')
      else Inr st)"
  by pat_completeness auto
termination
proof (relation "measure (\<lambda>(e, gi, ns, gj, st). length (best st) - gj)")
  show "wf (measure (\<lambda>(e, gi, ns, gj, st). length (best (st :: lsState)) - gj))"
    by simp
next
  fix e :: env and gi gj :: nat and ns :: "string list" and st st' :: lsState
  assume lt: "gj < length (best st)" and rt: "relocateTry e gi ns gj st = Inr st'"
  from rt have "length (best st') \<le> length (best st)"
    by (auto simp: relocateTry_def accept_def removeAt_def Let_def split: if_splits)
  with lt show "((e, gi, ns, Suc gj, st'), (e, gi, ns, gj, st))
      \<in> measure (\<lambda>(e, gi, ns, gj, st). length (best st) - gj)"
    by simp
qed

declare relocateLoop.simps [simp del]

text \<open>
  The Relocate-to-free block. It reads the identifier \<open>numFixed\<close>, which no
  declaration in the scope of \<open>localSearch\<close> binds (the constant of that name is local
  to \<open>computeGroups\<close>). The model takes the binding as the parameter \<open>numFixedBinding\<close>:
  \<open>None\<close> is the module as it stands, where evaluating the identifier raises a
  \<open>ReferenceError\<close>; \<open>allowFreeNodes && ...\<close> does not evaluate it when
  \<open>allowFreeNodes\<close> is false.
\<close>

definition toFreeTry :: "env \<Rightarrow> nat option \<Rightarrow> nat \<Rightarrow> nat \<Rightarrow> string \<Rightarrow> lsState \<Rightarrow> error + lsState" where
  "toFreeTry e numFixedBinding gi ni x st =
     (if \<not> allowFreeNodes (envOpts e) then Inr st
      else case numFixedBinding of
        None \<Rightarrow> Inl ReferenceError
      | Some numFixed \<Rightarrow>
          if \<not> gi \<ge> numFixed then Inr st
          else if gi \<ge> length (best st) then Inl TypeError
          else
            let srcAfter = removeAt ni (best st ! gi);
                lm = envLinks e; sym = symmetricLinks (envOpts e)
            in if srcAfter \<noteq> [] then
                 (if groupNodeWeightSum srcAfter (envNodes e) \<ge> envMin e then
                    (let candidate = (best st)[gi := srcAfter];
                         total = solutionTotalWeight candidate lm sym
                     in if total > bestTotal st
                        then Inr (accept st candidate (bestFree st @ [x]) total)
                        else Inr st)
                  else Inr st)
               else
                 (let candidate = removeAt gi (best st)
                  in if list_all (inBounds e) candidate then
                       (let total = solutionTotalWeight candidate lm sym
                        in if total \<ge> bestTotal st
                           then Inr (accept st candidate (bestFree st @ [x]) total)
                           else Inr st)
                     else Inr st))"

text \<open>The body of the loop over \<open>ni\<close>, up to the two \<open>if (improved) break\<close>.\<close>

definition relocateNode :: "env \<Rightarrow> nat option \<Rightarrow> string list list \<Rightarrow> nat \<Rightarrow> nat \<Rightarrow> lsState \<Rightarrow> error + lsState" where
  "relocateNode e numFixedBinding fgs gi ni st =
     (let x = best st ! gi ! ni;
          fixedGroup = nodeToFixedGroup fgs x;
          nodesToMove = (case fixedGroup of
                           Some fg \<Rightarrow> filter (\<lambda>i. i \<in> set (best st ! gi)) fg
                         | None \<Rightarrow> [x])
      in if (case fixedGroup of Some fg \<Rightarrow> length nodesToMove \<noteq> length fg | None \<Rightarrow> False)
         then Inr st
         else if nodesToMove = [] then Inr st
         else (case relocateLoop e gi nodesToMove 0 st of
                 Inl err \<Rightarrow> Inl err
               | Inr st1 \<Rightarrow> toFreeTry e numFixedBinding gi ni x st1))"

text \<open>
  The loops over \<open>gi\<close> and \<open>ni\<close> leave at the first node after which \<open>improved\<close> is
  set, and \<open>best\<close> is only replaced together with setting \<open>improved\<close>; so they visit,
  in order, the positions of \<open>best\<close> as it is when the pass starts.
\<close>

definition positions :: "'a list list \<Rightarrow> (nat \<times> nat) list" where
  "positions gs = concat (map (\<lambda>gi. map (Pair gi) [0..<length (gs ! gi)]) [0..<length gs])"

fun relocateScan :: "env \<Rightarrow> nat option \<Rightarrow> string list list \<Rightarrow> (nat \<times> nat) list \<Rightarrow> lsState \<Rightarrow> error + lsState" where
  "relocateScan e numFixedBinding fgs [] st = Inr st"
| "relocateScan e numFixedBinding fgs (p # ps) st =
     (case relocateNode e numFixedBinding fgs (fst p) (snd p) st of
        Inl err \<Rightarrow> Inl err
      | Inr st' \<Rightarrow> if improved st' then Inr st' else relocateScan e numFixedBinding fgs ps st')"

text \<open>Free-to-group: the loops over \<open>fi\<close> and \<open>gj\<close> stop at the first accepted move.\<close>

definition freeTry :: "env \<Rightarrow> nat \<Rightarrow> nat \<Rightarrow> lsState \<Rightarrow> lsState" where
  "freeTry e fi gj st =
     (let dstAfter = best st ! gj @ [bestFree st ! fi]
      in if groupNodeWeightSum dstAfter (envNodes e) > envMax e then st
         else let candidate = (best st)[gj := dstAfter];
                  total = solutionTotalWeight candidate (envLinks e) (symmetricLinks (envOpts e))
              in if total > bestTotal st then accept st candidate (removeAt fi (bestFree st)) total
                 else st)"

fun freeScan :: "env \<Rightarrow> (nat \<times> nat) list \<Rightarrow> lsState \<Rightarrow> lsState" where
  "freeScan e [] st = st"
| "freeScan e (p # ps) st =
     (let st' = freeTry e (fst p) (snd p) st
      in if improved st' then st' else freeScan e ps st')"

definition freePositions :: "lsState \<Rightarrow> (nat \<times> nat) list" where
  "freePositions st =
     concat (map (\<lambda>fi. map (Pair fi) [0..<length (best st)]) [0..<length (bestFree st)])"

text \<open>Swap: the four nested loops stop at the first accepted exchange.\<close>

definition swapTry :: "env \<Rightarrow> nat \<times> nat \<times> nat \<times> nat \<Rightarrow> lsState \<Rightarrow> lsState" where
  "swapTry e p st =
     (case p of (gi, gj, ni, nj) \<Rightarrow>
       let a = (best st ! gi)[ni := best st ! gj ! nj];
           b = (best st ! gj)[nj := best st ! gi ! ni];
           candidate = (best st)[gi := a, gj := b]
       in if \<not> inBounds e a then st
          else if \<not> inBounds e b then st
          else let total = solutionTotalWeight candidate (envLinks e) (symmetricLinks (envOpts e))
               in if total > bestTotal st then accept st candidate (bestFree st) total else st)"

fun swapScan :: "env \<Rightarrow> (nat \<times> nat \<times> nat \<times> nat) list \<Rightarrow> lsState \<Rightarrow> lsState" where
  "swapScan e [] st = st"
| "swapScan e (p # ps) st =
     (let st' = swapTry e p st in if improved st' then st' else swapScan e ps st')"

definition swapPositions :: "nat \<Rightarrow> 'a list list \<Rightarrow> (nat \<times> nat \<times> nat \<times> nat) list" where
  "swapPositions numFixed gs =
     concat (map (\<lambda>gi. concat (map (\<lambda>gj. concat (map (\<lambda>ni. map (\<lambda>nj. (gi, gj, ni, nj))
        [0..<length (gs ! gj)]) [0..<length (gs ! gi)])) [Suc gi..<length gs])) [numFixed..<length gs])"

text \<open>
  The loop \<open>for (let iter = 0; iter < 200 && improved; iter++)\<close>; the first argument
  counts the iterations that are left.
\<close>

fun lsIter :: "env \<Rightarrow> nat option \<Rightarrow> string list list \<Rightarrow> nat \<Rightarrow> lsState \<Rightarrow> error + lsState" where
  "lsIter e numFixedBinding fgs 0 st = Inr st"
| "lsIter e numFixedBinding fgs (Suc k) st =
     (if \<not> improved st then Inr st
      else
        case relocateScan e numFixedBinding fgs (positions (best st)) (st\<lparr>improved := False\<rparr>) of
          Inl err \<Rightarrow> Inl err
        | Inr st1 \<Rightarrow>
            let st2 = (if \<not> improved st1 \<and> allowFreeNodes (envOpts e) \<and> bestFree st1 \<noteq> []
                       then freeScan e (freePositions st1) st1 else st1)
            in if \<not> improved st2 then
                 (case numFixedBinding of
                    None \<Rightarrow> Inl ReferenceError
                  | Some numFixed \<Rightarrow>
                      lsIter e numFixedBinding fgs k (swapScan e (swapPositions numFixed (best st2)) st2))
               else lsIter e numFixedBinding fgs k st2)"

definition localSearch ::
  "env \<Rightarrow> nat option \<Rightarrow> string list list \<Rightarrow> string list \<Rightarrow> fixedArg \<Rightarrow> error + (string list list \<times> string list)" where
  "localSearch e numFixedBinding initialGroups initialFreeNodes fixedGroupsParam =
     (case fixedGroupsParam of
        NumberArg n \<Rightarrow> Inl TypeError
      | GroupsArg fgs \<Rightarrow>
          (case lsIter e numFixedBinding fgs 200
                  \<lparr>best = initialGroups, bestFree = initialFreeNodes,
                   bestTotal = solutionTotalWeight initialGroups (envLinks e) (symmetricLinks (envOpts e)),
                   improved = True\<rparr> of
             Inl err \<Rightarrow> Inl err
           | Inr st \<Rightarrow> Inr (best st, bestFree st)))"

section \<open>Solver entry\<close>

text \<open>
  One round of the loop over \<open>seed\<close>; \<open>build\<close> is the builder of the branch with
  all its arguments but the seed. A build that returns \<open>null\<close> leaves the archive
  as it is; otherwise the built solution is added, \<open>localSearch\<close> runs, and its result
  is added too. An error raised by \<open>localSearch\<close> leaves \<open>computeGroups\<close>.
\<close>

definition restart ::
  "env \<Rightarrow> (nat \<Rightarrow> (string list list \<times> string list) option) \<Rightarrow> fixedArg \<Rightarrow> nat \<Rightarrow> archive \<Rightarrow> error + archive" where
  "restart e build fixedGroupsParam seed ar =
     (case build seed of
        None \<Rightarrow> Inr ar
      | Some r \<Rightarrow>
          (let ar1 = addSolution e (fst r) (snd r) ar
           in case localSearch e None (fst r) (snd r) fixedGroupsParam of
                Inl err \<Rightarrow> Inl err
              | Inr imp \<Rightarrow> Inr (addSolution e (fst imp) (snd imp) ar1)))"

fun seedLoop :: "(nat \<Rightarrow> archive \<Rightarrow> error + archive) \<Rightarrow> nat list \<Rightarrow> archive \<Rightarrow> error + archive" where
  "seedLoop body [] ar = Inr ar"
| "seedLoop body (seed # seeds) ar =
     (case body seed ar of Inl err \<Rightarrow> Inl err | Inr ar' \<Rightarrow> seedLoop body seeds ar')"

text \<open>
  \<open>rawFixedGroups.filter(...).map(...).filter(...)\<close>: empty groups are dropped, ids
  that are not ids of nodes are dropped from the others, and groups left empty are
  dropped.
\<close>

definition fixedGroupsOf :: "string list \<Rightarrow> string list list \<Rightarrow> string list list" where
  "fixedGroupsOf ids rawFixedGroups =
     filter (\<lambda>g. g \<noteq> []) (map (filter (\<lambda>i. i \<in> set ids)) (filter (\<lambda>g. g \<noteq> []) rawFixedGroups))"

definition isSmall :: "options \<Rightarrow> nat \<Rightarrow> bool" where
  "isSmall opts n = (n \<le> (if allowFreeNodes opts then 12 else 16))"

text \<open>The object of the three early returns: \<open>{ solutions: [], errors }\<close>.\<close>

definition rejected :: "message list \<Rightarrow> result" where
  "rejected errs = \<lparr>solutions = [], optimal = None, errors = errs\<rparr>"

definition envOf :: "node list \<Rightarrow> linkMatrix \<Rightarrow> rat \<Rightarrow> rat \<Rightarrow> options \<Rightarrow> env" where
  "envOf nodes lm minCombined maxCombined opts =
     \<lparr>envNodes = nodesByIdOf nodes, envLinks = lm, envMin = minCombined,
      envMax = maxCombined, envOpts = opts, envCount = length nodes\<rparr>"

text \<open>The branch \<open>numFixed === 0\<close>: the exhaustive search on a small instance, then 20 restarts.\<close>

definition searchPlain :: "env \<Rightarrow> tieOrder \<Rightarrow> string list \<Rightarrow> bool \<Rightarrow> error + archive" where
  "searchPlain e tie ids small =
     seedLoop (restart e (greedyBuild e tie ids) (NumberArg 0)) [0..<20]
       (if small then exhaustiveSearch e ids ({}, []) else ({}, []))"

text \<open>The branch with fixed groups: 20 restarts of the builder that keeps them.\<close>

definition searchFixed :: "env \<Rightarrow> tieOrder \<Rightarrow> string list \<Rightarrow> string list list \<Rightarrow> error + archive" where
  "searchFixed e tie freeIds fixed =
     seedLoop (restart e (greedyBuildWithFixed e tie freeIds fixed) (GroupsArg fixed))
       [0..<20] ({}, [])"

text \<open>After the restarts: pruning, the last sort, and the \<open>optimal\<close> flag.\<close>

definition finish :: "options \<Rightarrow> linkMatrix \<Rightarrow> bool \<Rightarrow> nat \<Rightarrow> archive \<Rightarrow> result" where
  "finish opts lm small numFixed ar =
     (let pruned = pruneWastefulSolutions (snd ar) lm (symmetricLinks opts);
          sols = (if balanceGroupWeightsFactor opts > 0 then sortByScore opts pruned else pruned)
      in \<lparr>solutions = sols, optimal = Some (small \<and> numFixed = 0 \<and> sols \<noteq> []), errors = []\<rparr>)"

definition computeGroups ::
  "tieOrder \<Rightarrow> node list \<Rightarrow> linkMatrix \<Rightarrow> rat \<Rightarrow> rat \<Rightarrow> options \<Rightarrow> error + result" where
  "computeGroups tie nodes lm minCombined maxCombined opts =
     (let errs = validate nodes lm minCombined maxCombined in
      if errs \<noteq> [] then Inr (rejected errs)
      else
        let e = envOf nodes lm minCombined maxCombined opts;
            ids = map nodeId nodes;
            fixed = fixedGroupsOf ids (fixedGroups opts)
        in if card (set (concat fixed)) \<noteq> length (concat fixed)
           then Inr (rejected [FixedDuplicate])
           else if list_ex (\<lambda>g. groupNodeWeightSum g (envNodes e) > maxCombined) fixed
           then Inr (rejected [FixedTooHeavy maxCombined])
           else
             let freeIds = filter (\<lambda>i. i \<notin> set (concat fixed)) ids;
                 numFixed = length fixed;
                 small = isSmall opts (length ids)
             in case (if numFixed = 0 then searchPlain e tie ids small
                      else searchFixed e tie freeIds fixed) of
                  Inl err \<Rightarrow> Inl err
                | Inr ar \<Rightarrow> Inr (finish opts lm small numFixed ar))"

section \<open>Link matrix and link list\<close>

text \<open>
  A record of the link list. \<open>matrixToList\<close> takes \<open>from\<close> and \<open>to\<close> from
  \<open>key.split('|')\<close> by destructuring, which gives \<open>undefined\<close> for a missing part; so
  the two fields are options, with \<open>None\<close> for \<open>undefined\<close>. A template string prints
  \<open>undefined\<close> as that word.
\<close>

record 'v link =
  linkFrom :: "string option"
  linkTo :: "string option"
  linkWeight :: 'v

definition template :: "string option \<Rightarrow> string" where
  "template v = (case v of Some s \<Rightarrow> s | None \<Rightarrow> ''undefined'')"

text \<open>
  \<open>matrix[key] = linkWeight\<close> on an object: a key that is already there keeps its
  place and gets the new value, a new key goes to the end (\<open>AList.update\<close>).
\<close>

definition buildLinkMatrix :: "'v link list \<Rightarrow> (string \<times> 'v) list" where
  "buildLinkMatrix linkWeights =
     fold (\<lambda>l matrix. AList.update (linkKey (template (linkFrom l)) (template (linkTo l)))
                        (linkWeight l) matrix) linkWeights []"

text \<open>\<open>key.split('|')\<close>: the pieces between the bars; at least one piece.\<close>

fun splitBar :: "string \<Rightarrow> string list" where
  "splitBar [] = [[]]"
| "splitBar (c # cs) =
     (if c = CHR ''|'' then [] # splitBar cs
      else (case splitBar cs of p # ps \<Rightarrow> (c # p) # ps | [] \<Rightarrow> [[c]]))"

definition nthOpt :: "'a list \<Rightarrow> nat \<Rightarrow> 'a option" where
  "nthOpt xs i = (if i < length xs then Some (xs ! i) else None)"

definition matrixToList :: "(string \<times> 'v) list \<Rightarrow> 'v link list" where
  "matrixToList linkMatrix =
     map (\<lambda>entry. let parts = splitBar (fst entry)
                  in \<lparr>linkFrom = nthOpt parts 0, linkTo = nthOpt parts 1, linkWeight = snd entry\<rparr>)
       linkMatrix"

section \<open>The worked example\<close>

text \<open>
  Four nodes \<open>a\<close>, \<open>b\<close> of weight 2 and \<open>c\<close>, \<open>d\<close> of weight 3, groups of weight
  exactly 5, and four links of different weights. Ties do not occur, so the order of
  the edges does not depend on the engine.
\<close>

definition engineOrder :: tieOrder where
  "engineOrder = (\<lambda>seed edges. edges)"

definition exNodes :: "node list" where
  "exNodes = [\<lparr>nodeId = ''a'', nodeWeight = 2\<rparr>, \<lparr>nodeId = ''b'', nodeWeight = 2\<rparr>,
              \<lparr>nodeId = ''c'', nodeWeight = 3\<rparr>, \<lparr>nodeId = ''d'', nodeWeight = 3\<rparr>]"

definition exLinks :: linkMatrix where
  "exLinks = [(''a|b'', 10), (''a|d'', 5), (''b|d'', 2), (''a|c'', 1)]"

definition exEnv :: env where
  "exEnv = envOf exNodes exLinks 5 5 defaultOptions"

definition exSolution :: solution where
  "exSolution = \<lparr>groups = [[''a'', ''c''], [''b'', ''d'']], freeNodes = [], totalWeight = 3,
     groupDetails = [\<lparr>nodeIds = [''a'', ''c''], nodeWeightSum = 5, combinedWeight = 1\<rparr>,
                     \<lparr>nodeIds = [''b'', ''d''], nodeWeightSum = 5, combinedWeight = 2\<rparr>]\<rparr>"

section \<open>Notions used in the statements\<close>


text \<open>What \<open>computeGroups\<close> returns on the worked example.\<close>

definition exResult :: result where
  "exResult = \<lparr>solutions = [exSolution], optimal = Some True, errors = []\<rparr>"

text \<open>A record whose \<open>from\<close> and \<open>to\<close> are strings without a bar.\<close>

definition barFreeLink :: "'v link \<Rightarrow> bool" where
  "barFreeLink l =
     (case (linkFrom l, linkTo l) of
        (Some a, Some b) \<Rightarrow> CHR ''|'' \<notin> set a \<and> CHR ''|'' \<notin> set b
      | _ \<Rightarrow> False)"

text \<open>A key with exactly one bar.\<close>

definition oneBar :: "string \<Rightarrow> bool" where
  "oneBar k = (count_list k CHR ''|'' = 1)"

text \<open>Small instances for the repair pass and for the moves of local search.\<close>

definition repairEnv :: env where
  "repairEnv = envOf [\<lparr>nodeId = ''a'', nodeWeight = 1\<rparr>, \<lparr>nodeId = ''b'', nodeWeight = 1\<rparr>]
                 [] 2 5 defaultOptions"

definition searchEnv :: env where
  "searchEnv = envOf [\<lparr>nodeId = ''a'', nodeWeight = 1\<rparr>, \<lparr>nodeId = ''b'', nodeWeight = 1\<rparr>]
                 [] 0 5 defaultOptions"

definition searchEnvFree :: env where
  "searchEnvFree = envOf [\<lparr>nodeId = ''a'', nodeWeight = 1\<rparr>, \<lparr>nodeId = ''b'', nodeWeight = 1\<rparr>]
                 [] 0 5 (defaultOptions\<lparr>allowFreeNodes := True\<rparr>)"

definition searchStart :: lsState where
  "searchStart = \<lparr>best = [[''a''], [''b'']], bestFree = [], bestTotal = 0, improved = False\<rparr>"

text \<open>
  The population variance in the words of the specification: the mean of the squared
  deviations from the mean. It is written here without reference to the function
  \<open>variance\<close> of the source.
\<close>

definition mean :: "rat list \<Rightarrow> rat" where
  "mean xs = (\<Sum>x\<leftarrow>xs. x) / of_nat (length xs)"










text \<open>Options that pass two fixed groups: one of an unknown id, one empty.\<close>

definition unknownFixed :: options where
  "unknownFixed = defaultOptions\<lparr>fixedGroups := [[''zz''], []]\<rparr>"

section \<open>Invariants of the archive\<close>





text \<open>A restart that does not raise an error found no solution: the archive is unchanged.\<close>

lemma restart_NumberArg:
  "restart e build (NumberArg n) seed ar = Inr ar' \<Longrightarrow> build seed = None \<and> ar' = ar"
  by (auto simp: restart_def localSearch_def Let_def split: option.splits)

lemma searchPlain_Inr:
  assumes "searchPlain e tie ids small = Inr ar"
  shows "ar = (if small then exhaustiveSearch e ids ({}, []) else ({}, []))"
proof -
  have "seedLoop (restart e build (NumberArg n)) seeds a = Inr a' \<Longrightarrow> a' = a" for build n seeds a a'
    by (induction seeds arbitrary: a) (auto split: sum.splits dest: restart_NumberArg)
  with assms show ?thesis
    unfolding searchPlain_def by blast
qed

lemma computeGroups_Inr_cases:
  assumes "computeGroups tie nodes lm mn mx opts = Inr r"
  obtains (invalid) errs where "errs \<noteq> []" "r = rejected errs"
  | (plain) ar where "validate nodes lm mn mx = []"
      "fixedGroupsOf (map nodeId nodes) (fixedGroups opts) = []"
      "searchPlain (envOf nodes lm mn mx opts) tie (map nodeId nodes) (isSmall opts (length nodes)) = Inr ar"
      "r = finish opts lm (isSmall opts (length nodes)) 0 ar"
  | (fixed) ar where "validate nodes lm mn mx = []"
      "fixedGroupsOf (map nodeId nodes) (fixedGroups opts) \<noteq> []"
      "distinct (concat (fixedGroupsOf (map nodeId nodes) (fixedGroups opts)))"
      "list_all (\<lambda>g. groupNodeWeightSum g (nodesByIdOf nodes) \<le> mx)
         (fixedGroupsOf (map nodeId nodes) (fixedGroups opts))"
      "searchFixed (envOf nodes lm mn mx opts) tie
         (filter (\<lambda>i. i \<notin> set (concat (fixedGroupsOf (map nodeId nodes) (fixedGroups opts)))) (map nodeId nodes))
         (fixedGroupsOf (map nodeId nodes) (fixedGroups opts)) = Inr ar"
      "r = finish opts lm (isSmall opts (length nodes)) (length (fixedGroupsOf (map nodeId nodes) (fixedGroups opts))) ar"
proof (cases "validate nodes lm mn mx = []")
  case False
  with assms have "r = rejected (validate nodes lm mn mx)"
    by (simp add: computeGroups_def Let_def)
  with False show ?thesis by (rule invalid)
next
  case valid: True
  let ?fixed = "fixedGroupsOf (map nodeId nodes) (fixedGroups opts)"
  show ?thesis
  proof (cases "card (set (concat ?fixed)) \<noteq> length (concat ?fixed)")
    case True
    with assms valid have "r = rejected [FixedDuplicate]"
      by (simp add: computeGroups_def Let_def)
    then show ?thesis by (intro invalid[of "[FixedDuplicate]"]) simp_all
  next
    case nodup: False
    then have dist: "distinct (concat ?fixed)"
      by (simp add: card_distinct)
    show ?thesis
    proof (cases "list_ex (\<lambda>g. groupNodeWeightSum g (nodesByIdOf nodes) > mx) ?fixed")
      case True
      with assms valid nodup have "r = rejected [FixedTooHeavy mx]"
        by (simp add: computeGroups_def Let_def envOf_def)
      then show ?thesis by (intro invalid[of "[FixedTooHeavy mx]"]) simp_all
    next
      case light: False
      then have light': "list_all (\<lambda>g. groupNodeWeightSum g (nodesByIdOf nodes) \<le> mx) ?fixed"
        by (auto simp: list_ex_iff list_all_iff not_less)
      show ?thesis
      proof (cases "?fixed = []")
        case True
        with assms valid nodup light obtain ar where
          "searchPlain (envOf nodes lm mn mx opts) tie (map nodeId nodes) (isSmall opts (length nodes)) = Inr ar"
          "r = finish opts lm (isSmall opts (length nodes)) 0 ar"
          by (auto simp: computeGroups_def Let_def envOf_def split: sum.splits)
        with valid True show ?thesis by (intro plain)
      next
        case False
        with assms valid nodup light obtain ar where
          "searchFixed (envOf nodes lm mn mx opts) tie
             (filter (\<lambda>i. i \<notin> set (concat ?fixed)) (map nodeId nodes)) ?fixed = Inr ar"
          "r = finish opts lm (isSmall opts (length nodes)) (length ?fixed) ar"
          by (auto simp: computeGroups_def Let_def envOf_def split: sum.splits)
        with valid False dist light' show ?thesis by (intro fixed)
      qed
    qed
  qed
qed



lemma solutions_finish:
  "solutions (finish opts lm small k ar) =
     (if balanceGroupWeightsFactor opts > 0
      then sortByScore opts (pruneWastefulSolutions (snd ar) lm (symmetricLinks opts))
      else pruneWastefulSolutions (snd ar) lm (symmetricLinks opts))"
  by (simp add: finish_def Let_def)

lemma set_pruneWasteful: "set (pruneWastefulSolutions sols lm sy) \<subseteq> set sols"
  by (auto simp: pruneWastefulSolutions_def)

lemma set_solutions_finish: "set (solutions (finish opts lm small k ar)) \<subseteq> set (snd ar)"
  using set_pruneWasteful[of "snd ar" lm "symmetricLinks opts"]
  by (auto simp: solutions_finish sortByScore_def)






lemma envOpts_envOf [simp]: "envOpts (envOf nodes lm mn mx opts) = opts"
  by (simp add: envOf_def)


lemma computeGroups_example:
  "computeGroups engineOrder exNodes exLinks 5 5 defaultOptions = Inr exResult"
  by code_simp

section \<open>Errors and the optimal flag\<close>

lemma finish_simps [simp]:
  "errors (finish opts lm small k ar) = []"
  "optimal (finish opts lm small k ar) = Some (small \<and> k = 0 \<and> solutions (finish opts lm small k ar) \<noteq> [])"
  by (simp_all add: finish_def Let_def)

lemma rejected_simps [simp]:
  "solutions (rejected errs) = []" "optimal (rejected errs) = None" "errors (rejected errs) = errs"
  by (simp_all add: rejected_def)

text \<open>
  Claim C6, as amended. Whenever \<open>computeGroups\<close> returns a non-empty list of errors
  (from \<open>validate\<close> or from one of the two fixed-group checks), the list of solutions
  is empty and the returned object has no \<open>optimal\<close> property at all: reading it gives
  \<open>undefined\<close>, which is not \<open>true\<close>, but it is not the value \<open>false\<close> either.
\<close>

theorem computeGroups_errors_no_solutions:
  assumes "computeGroups tie nodes lm minCombined maxCombined opts = Inr r"
    and "errors r \<noteq> []"
  shows "solutions r = [] \<and> optimal r = None"
  using assms by (cases rule: computeGroups_Inr_cases) simp_all

text \<open>The amended claim C6 at an empty node list.\<close>

theorem computeGroups_errors_no_solutions_witness:
  "computeGroups engineOrder [] [] 0 100 defaultOptions = Inr (rejected [NoNodes])
   \<and> errors (rejected [NoNodes]) \<noteq> []
   \<and> solutions (rejected [NoNodes]) = [] \<and> optimal (rejected [NoNodes]) = None"
proof -
  have c: "computeGroups engineOrder [] [] 0 100 defaultOptions = Inr (rejected [NoNodes])"
    by (simp add: computeGroups_def validate_def)
  have e: "errors (rejected [NoNodes]) \<noteq> []" by simp
  from computeGroups_errors_no_solutions[OF c e] c e show ?thesis by simp
qed

text \<open>
  Claim C6 as stated says that the flag is \<open>false\<close>. On an empty node list the source
  returns \<open>{ solutions: [], errors }\<close>, an object without the flag.
\<close>

theorem computeGroups_rejected_optimal_absent:
  "computeGroups engineOrder [] [] 0 100 defaultOptions
     = Inr \<lparr>solutions = [], optimal = None, errors = [NoNodes]\<rparr>
   \<and> optimal \<lparr>solutions = [], optimal = None, errors = [NoNodes]\<rparr> \<noteq> Some False"
  by (simp add: computeGroups_def validate_def rejected_def)

text \<open>
  Claim C1 says that \<open>computeGroups\<close> runs to completion on every input that passes
  validation. On a single node \<open>a\<close> of weight 10 with bounds 5 and 15 (the input of the
  test "single node", which expects one solution) the first restart builds the group
  \<open>[a]\<close> and calls \<open>localSearch\<close> with the number \<open>0\<close> as its last argument;
  \<open>for (const fg of 0)\<close> raises a \<open>TypeError\<close>, which leaves \<open>computeGroups\<close>.
\<close>

theorem computeGroups_single_node_raises:
  "computeGroups engineOrder [\<lparr>nodeId = ''a'', nodeWeight = 10\<rparr>] [] 5 15 defaultOptions = Inl TypeError"
  by code_simp

section \<open>Round trips between link list and link matrix\<close>

lemma splitBar_no_bar: "CHR ''|'' \<notin> set s \<Longrightarrow> splitBar s = [s]"
  by (induction s) auto

lemma splitBar_append_bar:
  "CHR ''|'' \<notin> set a \<Longrightarrow> splitBar (a @ CHR ''|'' # rest) = a # splitBar rest"
  by (induction a) auto

lemma splitBar_linkKey:
  "CHR ''|'' \<notin> set a \<Longrightarrow> CHR ''|'' \<notin> set b \<Longrightarrow> splitBar (linkKey a b) = [a, b]"
  by (simp add: linkKey_def splitBar_append_bar splitBar_no_bar)

lemma splitBar_ne: "splitBar s \<noteq> []"
  by (induction s) (auto split: list.splits)

lemma join_splitBar: "join ''|'' (splitBar s) = s"
proof (induction s)
  case Nil
  then show ?case by simp
next
  case (Cons c s)
  obtain p ps where sp: "splitBar s = p # ps"
    using splitBar_ne[of s] by (cases "splitBar s") auto
  show ?case
  proof (cases "c = CHR ''|''")
    case True
    with Cons sp show ?thesis by simp
  next
    case False
    with Cons sp show ?thesis by (cases ps) auto
  qed
qed

lemma length_splitBar: "length (splitBar s) = Suc (count_list s CHR ''|'')"
  by (induction s) (auto split: list.splits simp: splitBar_ne)

lemma update_fresh: "k \<notin> fst ` set al \<Longrightarrow> AList.update k v al = al @ [(k, v)]"
  by (induction al) auto

lemma fold_update_fresh:
  assumes "distinct (map f ls)" and "set (map f ls) \<inter> fst ` set acc = {}"
  shows "fold (\<lambda>l m. AList.update (f l) (g l) m) ls acc = acc @ map (\<lambda>l. (f l, g l)) ls"
  using assms
proof (induction ls arbitrary: acc)
  case Nil
  then show ?case by simp
next
  case (Cons l ls)
  from Cons.prems have fresh: "f l \<notin> fst ` set acc" by auto
  have "set (map f ls) \<inter> fst ` set (acc @ [(f l, g l)]) = {}"
    using Cons.prems by auto
  with Cons.IH[of "acc @ [(f l, g l)]"] Cons.prems show ?case
    by (simp add: update_fresh[OF fresh])
qed

lemma linkKey_inj:
  assumes "CHR ''|'' \<notin> set a" "CHR ''|'' \<notin> set b" "CHR ''|'' \<notin> set a'" "CHR ''|'' \<notin> set b'"
    and "linkKey a b = linkKey a' b'"
  shows "a = a' \<and> b = b'"
proof -
  have "[a, b] = splitBar (linkKey a b)"
    by (simp only: splitBar_linkKey[OF assms(1,2)])
  also have "\<dots> = splitBar (linkKey a' b')"
    by (simp only: assms(5))
  also have "\<dots> = [a', b']"
    by (simp only: splitBar_linkKey[OF assms(3,4)])
  finally show ?thesis by simp
qed

lemma buildLinkMatrix_barFree:
  assumes d: "distinct (map (\<lambda>l. (linkFrom l, linkTo l)) ls)" and bf: "list_all barFreeLink ls"
  shows "buildLinkMatrix ls
    = map (\<lambda>l. (linkKey (template (linkFrom l)) (template (linkTo l)), linkWeight l)) ls"
proof -
  let ?key = "\<lambda>l :: 'a link. linkKey (template (linkFrom l)) (template (linkTo l))"
  have "inj_on ?key (set ls)"
  proof (rule inj_onI)
    fix l l' assume l: "l \<in> set ls" and l': "l' \<in> set ls" and eq: "?key l = ?key l'"
    from l l' bf have "barFreeLink l" "barFreeLink l'" by (auto simp: list_all_iff)
    then obtain a b a' b' where
      "linkFrom l = Some a" "linkTo l = Some b" "CHR ''|'' \<notin> set a" "CHR ''|'' \<notin> set b"
      "linkFrom l' = Some a'" "linkTo l' = Some b'" "CHR ''|'' \<notin> set a'" "CHR ''|'' \<notin> set b'"
      by (auto simp: barFreeLink_def split: option.splits)
    with eq linkKey_inj[of a b a' b'] have "(linkFrom l, linkTo l) = (linkFrom l', linkTo l')"
      by (simp add: template_def)
    with d l l' show "l = l'"
      by (meson distinct_map inj_onD)
  qed
  with d have "distinct (map ?key ls)"
    by (simp add: distinct_map)
  then show ?thesis
    unfolding buildLinkMatrix_def
    using fold_update_fresh[of ?key ls "[]" linkWeight] by simp
qed

lemma matrixToList_entry_barFree:
  assumes "barFreeLink l"
  shows "(let parts = splitBar (linkKey (template (linkFrom l)) (template (linkTo l)))
          in \<lparr>linkFrom = nthOpt parts 0, linkTo = nthOpt parts 1, linkWeight = linkWeight l\<rparr>) = l"
proof -
  from assms obtain a b where
    l: "linkFrom l = Some a" "linkTo l = Some b" "CHR ''|'' \<notin> set a" "CHR ''|'' \<notin> set b"
    by (auto simp: barFreeLink_def split: option.splits)
  then show ?thesis
    by (simp add: template_def splitBar_linkKey nthOpt_def)
qed

lemma rebuilt_key:
  assumes "oneBar k"
  shows "linkKey (template (nthOpt (splitBar k) 0)) (template (nthOpt (splitBar k) 1)) = k"
proof -
  from assms have "length (splitBar k) = 2"
    by (simp add: length_splitBar oneBar_def)
  then obtain a b where ab: "splitBar k = [a, b]"
    by (cases "splitBar k"; cases "tl (splitBar k)") auto
  with join_splitBar[of k] have "a @ ''|'' @ b = k" by simp
  with ab show ?thesis
    by (simp add: nthOpt_def template_def linkKey_def)
qed

text \<open>
  Claim C10, as amended. \<open>buildLinkMatrix\<close> followed by \<open>matrixToList\<close> gives the
  list back when no two records have the same pair \<open>(from, to)\<close> and no \<open>from\<close> or
  \<open>to\<close> contains a bar. \<open>matrixToList\<close> followed by \<open>buildLinkMatrix\<close> gives the
  matrix back when every key contains exactly one bar.
\<close>

theorem link_list_matrix_roundtrip:
  "(distinct (map (\<lambda>l. (linkFrom l, linkTo l)) ls) \<and> list_all barFreeLink ls
      \<longrightarrow> matrixToList (buildLinkMatrix ls) = ls)
   \<and> (distinct (map fst m) \<and> list_all oneBar (map fst m)
      \<longrightarrow> buildLinkMatrix (matrixToList m) = m)"
proof (intro conjI impI)
  assume a: "distinct (map (\<lambda>l. (linkFrom l, linkTo l)) ls) \<and> list_all barFreeLink ls"
  then have bf: "\<And>l. l \<in> set ls \<Longrightarrow> barFreeLink l" by (simp add: list_all_iff)
  have "map (\<lambda>l. let parts = splitBar (linkKey (template (linkFrom l)) (template (linkTo l)))
          in \<lparr>linkFrom = nthOpt parts 0, linkTo = nthOpt parts 1, linkWeight = linkWeight l\<rparr>) ls = ls"
    by (rule map_idI) (rule matrixToList_entry_barFree[OF bf])
  then show "matrixToList (buildLinkMatrix ls) = ls"
    unfolding buildLinkMatrix_barFree[OF conjunct1[OF a] conjunct2[OF a]] matrixToList_def
    by (simp add: Let_def comp_def)
next
  assume a: "distinct (map fst m) \<and> list_all oneBar (map fst m)"
  let ?key = "\<lambda>l :: 'b link. linkKey (template (linkFrom l)) (template (linkTo l))"
  have key: "map ?key (matrixToList m) = map fst m"
    using a by (auto simp: matrixToList_def Let_def rebuilt_key[unfolded One_nat_def] list_all_iff)
  have w: "map linkWeight (matrixToList m) = map snd m"
    by (simp add: matrixToList_def Let_def)
  have "buildLinkMatrix (matrixToList m) = map (\<lambda>l. (?key l, linkWeight l)) (matrixToList m)"
    unfolding buildLinkMatrix_def
    using fold_update_fresh[of ?key "matrixToList m" "[]" linkWeight] a key by simp
  also have "\<dots> = map (\<lambda>entry. (linkKey (template (nthOpt (splitBar (fst entry)) 0))
                                   (template (nthOpt (splitBar (fst entry)) 1)), snd entry)) m"
    by (simp add: matrixToList_def Let_def comp_def)
  also have "\<dots> = m"
    by (rule map_idI) (use a in \<open>simp add: rebuilt_key[unfolded One_nat_def] list_all_iff prod_eq_iff\<close>)
  finally show "buildLinkMatrix (matrixToList m) = m" .
qed

text \<open>The amended claim C10 on two links between \<open>a\<close> and \<open>b\<close>.\<close>

theorem link_list_matrix_roundtrip_witness:
  "(distinct (map (\<lambda>l. (linkFrom l, linkTo l))
        [\<lparr>linkFrom = Some ''a'', linkTo = Some ''b'', linkWeight = 1 :: rat\<rparr>,
         \<lparr>linkFrom = Some ''b'', linkTo = Some ''a'', linkWeight = 2\<rparr>])
     \<and> list_all barFreeLink
        [\<lparr>linkFrom = Some ''a'', linkTo = Some ''b'', linkWeight = 1 :: rat\<rparr>,
         \<lparr>linkFrom = Some ''b'', linkTo = Some ''a'', linkWeight = 2\<rparr>])
   \<and> matrixToList (buildLinkMatrix
        [\<lparr>linkFrom = Some ''a'', linkTo = Some ''b'', linkWeight = 1 :: rat\<rparr>,
         \<lparr>linkFrom = Some ''b'', linkTo = Some ''a'', linkWeight = 2\<rparr>])
      = [\<lparr>linkFrom = Some ''a'', linkTo = Some ''b'', linkWeight = 1 :: rat\<rparr>,
         \<lparr>linkFrom = Some ''b'', linkTo = Some ''a'', linkWeight = 2\<rparr>]
   \<and> (distinct (map fst [(''a|b'', 1 :: rat), (''b|a'', 2)])
     \<and> list_all oneBar (map fst [(''a|b'', 1 :: rat), (''b|a'', 2)]))
   \<and> buildLinkMatrix (matrixToList [(''a|b'', 1 :: rat), (''b|a'', 2)]) = [(''a|b'', 1), (''b|a'', 2)]"
proof -
  let ?ls = "[\<lparr>linkFrom = Some ''a'', linkTo = Some ''b'', linkWeight = 1 :: rat\<rparr>,
         \<lparr>linkFrom = Some ''b'', linkTo = Some ''a'', linkWeight = 2\<rparr>]"
  let ?m = "[(''a|b'', 1 :: rat), (''b|a'', 2)]"
  have 1: "distinct (map (\<lambda>l. (linkFrom l, linkTo l)) ?ls) \<and> list_all barFreeLink ?ls"
    by (simp add: barFreeLink_def)
  have 2: "distinct (map fst ?m) \<and> list_all oneBar (map fst ?m)"
    by (simp add: oneBar_def)
  from link_list_matrix_roundtrip[of ?ls ?m] have
    "matrixToList (buildLinkMatrix ?ls) = ?ls" "buildLinkMatrix (matrixToList ?m) = ?m"
    using 1 2 by simp_all
  with 1 2 show ?thesis by simp
qed

text \<open>
  Claim C10 as stated, for every list and every matrix, fails: of two records with the
  same \<open>from\<close> and \<open>to\<close> only the last weight survives, and a key with two bars loses
  its third piece.
\<close>

theorem link_list_matrix_not_inverse:
  "matrixToList (buildLinkMatrix
      [\<lparr>linkFrom = Some ''a'', linkTo = Some ''b'', linkWeight = 1 :: rat\<rparr>,
       \<lparr>linkFrom = Some ''a'', linkTo = Some ''b'', linkWeight = 2\<rparr>])
     = [\<lparr>linkFrom = Some ''a'', linkTo = Some ''b'', linkWeight = 2\<rparr>]
   \<and> buildLinkMatrix (matrixToList [(''a|b|c'', 1 :: rat)]) = [(''a|b'', 1)]"
  by (simp add: buildLinkMatrix_def matrixToList_def linkKey_def template_def nthOpt_def)

section \<open>Repair with fixed groups\<close>

lemma nth_mem_removeAt:
  "k < length xs \<Longrightarrow> k \<noteq> r \<Longrightarrow> xs ! k \<in> set (removeAt r xs)"
proof (cases "k < r")
  case True
  assume "k < length xs"
  with True have "xs ! k \<in> set (take r xs)"
    by (metis in_set_conv_nth length_take min_less_iff_conj nth_take)
  then show ?thesis by (simp add: removeAt_def)
next
  case False
  assume k: "k < length xs" "k \<noteq> r"
  with False have "r < k" by simp
  then obtain d where d: "k = Suc r + d"
    by (metis less_iff_Suc_add add_Suc)
  with k have "xs ! k = drop (Suc r) xs ! d" "d < length (drop (Suc r) xs)"
    by (simp_all add: add.commute)
  then have "xs ! k \<in> set (drop (Suc r) xs)"
    by (metis nth_mem)
  then show ?thesis by (simp add: removeAt_def)
qed

lemma set_removeAt_subset: "set (removeAt r xs) \<subseteq> set xs"
  by (auto simp: removeAt_def dest: in_set_takeD in_set_dropD)

text \<open>One step of the repair: what happens to the groups and to the free list.\<close>

lemma mergeScanFixed_step:
  assumes "mergeScanFixed e F m f is = Some (m', f')" and "set is \<subseteq> {0..<length m}"
  shows "(\<forall>x \<in> set f'. x \<in> set f \<or> x \<notin> F)
    \<and> (\<forall>g \<in> set m. set g \<inter> F \<noteq> {} \<longrightarrow> (\<exists>g' \<in> set m'. set g \<subseteq> set g'))"
  using assms
proof (induction "is")
  case Nil
  then show ?case by simp
next
  case (Cons i "is")
  from Cons.prems(2) have i: "i < length m" and rest: "set is \<subseteq> {0..<length m}" by auto
  show ?case
  proof (cases "groupNodeWeightSum (m ! i) (envNodes e) \<ge> envMin e")
    case True
    with Cons rest show ?thesis by simp
  next
    case under: False
    show ?thesis
    proof (cases "mergeTarget e m i")
      case (Some j)
      then have j: "j < length m" "j \<noteq> i"
        by (auto simp: mergeTarget_def find_Some_iff)
      from under Some Cons.prems(1)
      have m': "m' = removeAt (max i j) (m[min i j := m ! i @ m ! j])" and f': "f' = f"
        by simp_all
      let ?c = "m ! i @ m ! j"
      let ?u = "m[min i j := ?c]"
      have lt: "min i j < length ?u" "min i j \<noteq> max i j" using i j by auto
      have c: "?c \<in> set m'"
        using nth_mem_removeAt[OF lt] i j unfolding m' by simp
      have "\<exists>g' \<in> set m'. set g \<subseteq> set g'" if "g \<in> set m" for g
      proof -
        from that obtain k where k: "k < length m" "g = m ! k"
          by (auto simp: in_set_conv_nth)
        show ?thesis
        proof (cases "k = i \<or> k = j")
          case True
          with k have "set g \<subseteq> set ?c" by auto
          with c show ?thesis by blast
        next
          case False
          then have "k \<noteq> max i j" "k \<noteq> min i j" by (auto simp: max_def min_def)
          with k nth_mem_removeAt[of k ?u "max i j"] have "g \<in> set m'"
            unfolding m' by simp
          then show ?thesis by blast
        qed
      qed
      with f' show ?thesis by simp
    next
      case None
      show ?thesis
      proof (cases "allowFreeNodes (envOpts e) \<and> \<not> list_ex (\<lambda>x. x \<in> F) (m ! i)")
        case True
        with under None Cons.prems(1)
        have m': "m' = removeAt i m" and f': "f' = f @ m ! i" by simp_all
        from True have nofixed: "set (m ! i) \<inter> F = {}"
          by (auto simp: list_ex_iff)
        have "\<exists>g' \<in> set m'. set g \<subseteq> set g'" if "g \<in> set m" "set g \<inter> F \<noteq> {}" for g
        proof -
          from that obtain k where k: "k < length m" "g = m ! k"
            by (auto simp: in_set_conv_nth)
          with that nofixed have "k \<noteq> i" by auto
          with k nth_mem_removeAt[of k m i] have "g \<in> set m'" unfolding m' by simp
          then show ?thesis by blast
        qed
        with f' nofixed show ?thesis by auto
      next
        case False
        with under None Cons rest show ?thesis by auto
      qed
    qed
  qed
qed

lemma mergeLoopFixed_keeps:
  assumes "mergeLoopFixed e F st = st'"
  shows "(\<forall>x \<in> set (snd st'). x \<in> set (snd st) \<or> x \<notin> F)
    \<and> (\<forall>g \<in> set (fst st). set g \<inter> F \<noteq> {} \<longrightarrow> (\<exists>g' \<in> set (fst st'). set g \<subseteq> set g'))"
  using assms
proof (induction e F st arbitrary: st' rule: mergeLoopFixed.induct)
  case (1 e F st)
  show ?case
  proof (cases "mergeScanFixed e F (fst st) (snd st) [0..<length (fst st)]")
    case None
    with "1.prems" have "st' = st" by (simp add: mergeLoopFixed.simps[of e F st])
    then show ?thesis by auto
  next
    case (Some st1)
    with "1.prems" have loop: "mergeLoopFixed e F st1 = st'"
      by (simp add: mergeLoopFixed.simps[of e F st])
    from mergeScanFixed_step[of e F "fst st" "snd st" "[0..<length (fst st)]" "fst st1" "snd st1"] Some
    have step: "\<forall>x \<in> set (snd st1). x \<in> set (snd st) \<or> x \<notin> F"
      "\<forall>g \<in> set (fst st). set g \<inter> F \<noteq> {} \<longrightarrow> (\<exists>g' \<in> set (fst st1). set g \<subseteq> set g')"
      by simp_all
    from "1.IH"[OF Some loop]
    have ih: "\<forall>x \<in> set (snd st'). x \<in> set (snd st1) \<or> x \<notin> F"
      "\<forall>g \<in> set (fst st1). set g \<inter> F \<noteq> {} \<longrightarrow> (\<exists>g' \<in> set (fst st'). set g \<subseteq> set g')"
      by simp_all
    have "\<exists>g' \<in> set (fst st'). set g \<subseteq> set g'" if g: "g \<in> set (fst st)" "set g \<inter> F \<noteq> {}" for g
    proof -
      from step(2) g obtain g1 where g1: "g1 \<in> set (fst st1)" "set g \<subseteq> set g1" by blast
      with g(2) have "set g1 \<inter> F \<noteq> {}" by auto
      with ih(2) g1 obtain g' where "g' \<in> set (fst st')" "set g1 \<subseteq> set g'" by blast
      with g1 show ?thesis by blast
    qed
    with step(1) ih(1) show ?thesis by blast
  qed
qed

text \<open>
  Claim C7, as amended. In the repair pass with fixed groups a group that holds a node
  of a fixed group is never freed: the pass adds no node of a fixed group to the free
  list. Such a group can be merged with another group, in either role; a merge keeps
  all members of both groups together, so every group that holds a node of a fixed
  group is contained in a group of the result, and no fixed group is split.
\<close>

theorem mergeSmallGroupsWithFixed_keeps_fixed_together:
  assumes "mergeSmallGroupsWithFixed e gs free fixedGroupsParam = Some (gs', free')"
  shows "(\<forall>x \<in> set free'. x \<in> set free \<or> x \<notin> set (concat fixedGroupsParam))
    \<and> (\<forall>g \<in> set gs. set g \<inter> set (concat fixedGroupsParam) \<noteq> {}
          \<longrightarrow> (\<exists>g' \<in> set gs'. set g \<subseteq> set g'))"
proof -
  from assms have "mergeLoopFixed e (set (concat fixedGroupsParam)) (gs, free) = (gs', free')"
    by (simp add: mergeSmallGroupsWithFixed_def Let_def split: if_splits)
  from mergeLoopFixed_keeps[OF this] show ?thesis by simp
qed

lemma repair_example:
  "mergeSmallGroupsWithFixed repairEnv [[''a''], [''b'']] [] [[''a'']] = Some ([[''a'', ''b'']], [])"
  by code_simp

text \<open>The amended claim C7 on the fixed group \<open>[a]\<close> and the group \<open>[b]\<close>.\<close>

theorem mergeSmallGroupsWithFixed_keeps_fixed_together_witness:
  "mergeSmallGroupsWithFixed repairEnv [[''a''], [''b'']] [] [[''a'']] = Some ([[''a'', ''b'']], [])
   \<and> set [''a''] \<inter> set (concat [[''a'']]) \<noteq> {}
   \<and> [''a'', ''b''] \<in> set [[''a'', ''b'']] \<and> set [''a''] \<subseteq> set [''a'', ''b'']"
  using mergeSmallGroupsWithFixed_keeps_fixed_together[OF repair_example] repair_example
  by simp

text \<open>
  Claim C7 as stated says that a group with fixed nodes is never involved in a merge
  and leaves the pass with exactly its members. With nodes \<open>a\<close>, \<open>b\<close> of weight 1,
  bounds 2 and 5 and the fixed group \<open>[a]\<close>, the pass merges \<open>[a]\<close> with \<open>[b]\<close>.
\<close>

theorem mergeSmallGroupsWithFixed_merges_fixed_group:
  "mergeSmallGroupsWithFixed repairEnv [[''a''], [''b'']] [] [[''a'']] = Some ([[''a'', ''b'']], [])
   \<and> [''a''] \<notin> set [[''a'', ''b'']]"
  using repair_example by simp

section \<open>The acceptance tests of local search\<close>

text \<open>
  Claim C8, as amended. In the Relocate move, when the source group becomes empty and
  is deleted, the move is accepted exactly when the destination stays within
  \<open>maxCombined\<close>, every group of the candidate is within the bounds, and the new total
  weight is strictly greater than the old one. The relaxed test (new total \<open>\<ge>\<close> old
  total) is the one of the Relocate-to-free move whose source group becomes empty; that
  move runs only where \<open>numFixed\<close> is bound.
\<close>

theorem relocate_empty_source_strict:
  "(gi \<noteq> gj \<and> gi < length (best st) \<and> filter (\<lambda>x. x \<notin> set nodesToMove) (best st ! gi) = []
      \<longrightarrow> relocateTry e gi nodesToMove gj st =
            Inr (let candidate = (removeAt gi (best st))[(if gj > gi then gj - 1 else gj)
                                   := best st ! gj @ nodesToMove];
                     total = solutionTotalWeight candidate (envLinks e) (symmetricLinks (envOpts e))
                 in if groupNodeWeightSum (best st ! gj @ nodesToMove) (envNodes e) \<le> envMax e
                       \<and> list_all (inBounds e) candidate \<and> total > bestTotal st
                    then accept st candidate (bestFree st) total else st))
   \<and> (allowFreeNodes (envOpts e) \<and> numFixed \<le> gi \<and> gi < length (best st)
        \<and> removeAt ni (best st ! gi) = [] \<and> list_all (inBounds e) (removeAt gi (best st))
        \<and> solutionTotalWeight (removeAt gi (best st)) (envLinks e) (symmetricLinks (envOpts e))
             \<ge> bestTotal st
      \<longrightarrow> toFreeTry e (Some numFixed) gi ni x st =
            Inr (accept st (removeAt gi (best st)) (bestFree st @ [x])
                   (solutionTotalWeight (removeAt gi (best st)) (envLinks e) (symmetricLinks (envOpts e)))))"
  by (auto simp: relocateTry_def toFreeTry_def Let_def)

lemma relocate_example:
  "relocateTry searchEnv 0 [''a''] 1 searchStart = Inr searchStart"
  by code_simp

lemma relocate_example_candidate:
  "list_all (inBounds searchEnv) [[''b'', ''a'']]
   \<and> solutionTotalWeight [[''b'', ''a'']] (envLinks searchEnv) (symmetricLinks (envOpts searchEnv))
        \<ge> bestTotal searchStart"
  by code_simp

text \<open>The amended claim C8 on the groups \<open>[a]\<close> and \<open>[b]\<close> without links.\<close>

theorem relocate_empty_source_strict_witness:
  "relocateTry searchEnv 0 [''a''] 1 searchStart = Inr searchStart
   \<and> toFreeTry searchEnvFree (Some 0) 0 0 ''a'' searchStart
       = Inr \<lparr>best = [[''b'']], bestFree = [''a''], bestTotal = 0, improved = True\<rparr>"
proof -
  have 2: "allowFreeNodes (envOpts searchEnvFree) \<and> (0::nat) \<le> 0 \<and> 0 < length (best searchStart)
        \<and> removeAt 0 (best searchStart ! 0) = [] \<and> list_all (inBounds searchEnvFree) (removeAt 0 (best searchStart))
        \<and> solutionTotalWeight (removeAt 0 (best searchStart)) (envLinks searchEnvFree)
             (symmetricLinks (envOpts searchEnvFree)) \<ge> bestTotal searchStart"
    by code_simp
  have 3: "accept searchStart (removeAt 0 (best searchStart)) (bestFree searchStart @ [''a''])
       (solutionTotalWeight (removeAt 0 (best searchStart)) (envLinks searchEnvFree)
             (symmetricLinks (envOpts searchEnvFree)))
      = \<lparr>best = [[''b'']], bestFree = [''a''], bestTotal = 0, improved = True\<rparr>"
    by code_simp
  from relocate_empty_source_strict[where e = searchEnvFree and gi = 0 and st = searchStart
      and numFixed = 0 and ni = 0 and x = "''a''"] 2
  have "toFreeTry searchEnvFree (Some 0) 0 0 ''a'' searchStart =
      Inr (accept searchStart (removeAt 0 (best searchStart)) (bestFree searchStart @ [''a''])
       (solutionTotalWeight (removeAt 0 (best searchStart)) (envLinks searchEnvFree)
             (symmetricLinks (envOpts searchEnvFree))))"
    by blast
  moreover have 1: "(0::nat) \<noteq> 1 \<and> 0 < length (best searchStart)
      \<and> filter (\<lambda>x. x \<notin> set [''a'']) (best searchStart ! 0) = []"
    by (simp add: searchStart_def)
  from relocate_empty_source_strict[where e = searchEnv and gi = 0 and gj = 1 and st = searchStart
      and nodesToMove = "[''a'']"] 1
  have "\<exists>st'. relocateTry searchEnv 0 [''a''] 1 searchStart = Inr st'"
    by blast
  ultimately show ?thesis using 3 relocate_example by simp
qed

text \<open>
  Claim C8 as stated says that Relocate accepts a move that empties its source group
  whenever the new total is at least the old one. Moving \<open>a\<close> from \<open>[a]\<close> to \<open>[b]\<close>
  empties the source and gives the valid candidate \<open>[[b, a]]\<close> of the same total 0;
  the move is rejected, and the whole Relocate scan leaves the state as it is.
\<close>

theorem relocate_empty_source_rejects_equal_total:
  "relocateTry searchEnv 0 [''a''] 1 searchStart = Inr searchStart
   \<and> filter (\<lambda>x. x \<notin> set [''a'']) (best searchStart ! 0) = []
   \<and> list_all (inBounds searchEnv) [[''b'', ''a'']]
   \<and> solutionTotalWeight [[''b'', ''a'']] (envLinks searchEnv) (symmetricLinks (envOpts searchEnv))
        \<ge> bestTotal searchStart
   \<and> relocateScan searchEnv None [] (positions (best searchStart)) searchStart = Inr searchStart"
  by code_simp

section \<open>The ranking of the returned solutions\<close>





lemma computeGroups_unknown_fixed_example:
  "computeGroups engineOrder exNodes exLinks 5 5 unknownFixed = Inr exResult"
  by code_simp




text \<open>
  Claim C9, as amended. If \<open>computeGroups\<close> returns \<open>optimal = true\<close>, then no group of
  the option \<open>fixedGroups\<close> holds the id of a node (the call may pass fixed groups, but
  only empty ones and ones of unknown ids, which the solver drops), the number of nodes
  is at most 16 (at most 12 with \<open>allowFreeNodes\<close>), and at least one solution is
  returned. The flag never rests on greedy or local-search results alone: every
  returned solution is in the archive that the exhaustive search has filled.
\<close>

theorem computeGroups_optimal_only_exhaustive:
  assumes "computeGroups tie nodes lm minCombined maxCombined opts = Inr r"
    and "optimal r = Some True"
  shows "(\<forall>g \<in> set (fixedGroups opts). set g \<inter> set (map nodeId nodes) = {})
    \<and> length nodes \<le> (if allowFreeNodes opts then 12 else 16)
    \<and> solutions r \<noteq> []
    \<and> set (solutions r) \<subseteq> set (snd (exhaustiveSearch (envOf nodes lm minCombined maxCombined opts)
                                        (map nodeId nodes) ({}, [])))"
proof -
  have none: "\<forall>g \<in> set (fixedGroups opts). set g \<inter> set (map nodeId nodes) = {}"
    if "fixedGroupsOf (map nodeId nodes) (fixedGroups opts) = []"
  proof
    fix g assume g: "g \<in> set (fixedGroups opts)"
    show "set g \<inter> set (map nodeId nodes) = {}"
    proof (cases "g = []")
      case True
      then show ?thesis by simp
    next
      case False
      with g that have "filter (\<lambda>i. i \<in> set (map nodeId nodes)) g = []"
        by (auto simp: fixedGroupsOf_def filter_empty_conv)
      then show ?thesis by (auto simp: filter_empty_conv)
    qed
  qed
  from assms(1) show ?thesis
  proof (cases rule: computeGroups_Inr_cases)
    case (invalid errs)
    with assms(2) show ?thesis by simp
  next
    case (plain ar)
    with assms(2) have small: "isSmall opts (length nodes)" and ne: "solutions r \<noteq> []"
      by auto
    from searchPlain_Inr[OF plain(3)] small
    have "ar = exhaustiveSearch (envOf nodes lm minCombined maxCombined opts) (map nodeId nodes) ({}, [])"
      by simp
    with set_solutions_finish[of opts lm "isSmall opts (length nodes)" 0 ar] plain(4) small ne
      none[OF plain(2)]
    show ?thesis by (simp add: isSmall_def)
  next
    case (fixed ar)
    with assms(2) show ?thesis by simp
  qed
qed

text \<open>The amended claim C9 on the worked example with two fixed groups that are dropped.\<close>

theorem computeGroups_optimal_only_exhaustive_witness:
  "computeGroups engineOrder exNodes exLinks 5 5 unknownFixed = Inr exResult
   \<and> optimal exResult = Some True
   \<and> fixedGroups unknownFixed = [[''zz''], []]
   \<and> set [''zz''] \<inter> set (map nodeId exNodes) = {}
   \<and> length exNodes \<le> (if allowFreeNodes unknownFixed then 12 else 16)
   \<and> solutions exResult \<noteq> []"
proof -
  have o: "optimal exResult = Some True" by (simp add: exResult_def)
  from computeGroups_optimal_only_exhaustive[OF computeGroups_unknown_fixed_example o]
    computeGroups_unknown_fixed_example o
  show ?thesis by (simp add: unknownFixed_def)
qed

text \<open>
  Claim C9 as stated says that a call that returns \<open>optimal = true\<close> had no fixed
  groups. The worked example called with the fixed groups \<open>[['zz'], []]\<close> returns
  \<open>optimal = true\<close>.
\<close>

theorem computeGroups_optimal_with_fixed_groups_passed:
  "computeGroups engineOrder exNodes exLinks 5 5 (defaultOptions\<lparr>fixedGroups := [[''zz''], []]\<rparr>)
     = Inr \<lparr>solutions = [exSolution], optimal = Some True, errors = []\<rparr>
   \<and> fixedGroups (defaultOptions\<lparr>fixedGroups := [[''zz''], []]\<rparr>) \<noteq> []"
  using computeGroups_unknown_fixed_example
  by (simp add: unknownFixed_def exResult_def)


end
